theory Spec2Isabelle
  imports Complex_Main "HOL-Library.Log_Nat" "HOL-Library.Sublist"
begin

section \<open>JavaScript numbers\<close>

text \<open>
  Every arithmetic operation of \<^verbatim>\<open>image-processor.js\<close> is an operation on
  JavaScript Numbers, that is on IEEE 754 binary64 values with the default rounding
  (to nearest, ties to even). The only Numbers that occur in the dimension computation
  are non-negative and finite: \<^verbatim>\<open>img.width\<close> and \<^verbatim>\<open>img.height\<close> are
  unsigned 32-bit integers, \<^verbatim>\<open>maxSize\<close> is a non-negative integer, and the
  quotients and products formed from them stay far inside the normal exponent range.
  A Number is therefore modelled by the rational it denotes, and an operation by the
  exact operation followed by rounding to 53 significant bits (\<open>fl\<close>).
\<close>

text \<open>The binary exponent of a positive rational: \<open>2 powi binade x \<le> x < 2 powi (binade x + 1)\<close>.\<close>

definition binade :: "rat \<Rightarrow> int" where
  "binade x = (let (p, q) = quotient_of x; d = bitlen p - bitlen q in
               if 2 powi d \<le> x then d else d - 1)"

text \<open>Rounding a rational to the nearest integer, a tie going to the even neighbour.\<close>

definition round_ties_even :: "rat \<Rightarrow> int" where
  "round_ties_even r = (let f = \<lfloor>r\<rfloor>; d = r - of_int f in
     if d < 1 / 2 then f else if 1 / 2 < d then f + 1 else if even f then f else f + 1)"

text \<open>
  Rounding to binary64: the significand of \<open>x\<close> is scaled to an integer of 53 bits,
  rounded, and scaled back. Only non-negative values are ever rounded here; the first
  branch covers zero.
\<close>

definition fl :: "rat \<Rightarrow> rat" where
  "fl x = (if x \<le> 0 then 0 else
           let ulp = 2 powi (binade x - 52) in of_int (round_ties_even (x / ulp)) * ulp)"

text \<open>The operators \<^verbatim>\<open>/\<close> and \<^verbatim>\<open>*\<close> on Numbers (the divisor is never zero here).\<close>

definition js_div :: "rat \<Rightarrow> rat \<Rightarrow> rat" where
  "js_div a b = fl (a / b)"

definition js_mul :: "rat \<Rightarrow> rat \<Rightarrow> rat" where
  "js_mul a b = fl (a * b)"

text \<open>
  \<^verbatim>\<open>Math.round\<close>: the integer closest to the argument, a tie going towards
  \<open>+\<infinity>\<close>. It is computed exactly on the argument's value.
\<close>

definition Math_round :: "rat \<Rightarrow> int" where
  "Math_round x = \<lfloor>x + 1 / 2\<rfloor>"

section \<open>The dimension computation of \<^verbatim>\<open>img.onload\<close>\<close>

text \<open>
  Lines 84 to 101 of \<^verbatim>\<open>resizeAndConvertToJpeg\<close>. The arguments are
  \<^verbatim>\<open>img.width\<close>, \<^verbatim>\<open>img.height\<close> and \<^verbatim>\<open>maxSize\<close>; the result is the
  pair of the variables \<^verbatim>\<open>width\<close> and \<^verbatim>\<open>height\<close> as they are handed to the
  canvas. In the first branch \<open>width > height \<ge> 0\<close> and in the second
  \<open>height > maxSize \<ge> 0\<close>, so neither division has a zero divisor.
\<close>

definition onload_dimensions :: "nat \<Rightarrow> nat \<Rightarrow> nat \<Rightarrow> nat \<times> nat" where
  "onload_dimensions width height maxSize =
     (let isLandscape = width > height in
      if isLandscape then
        (if width > maxSize
         then (maxSize,
               nat (Math_round (js_mul (js_div (of_nat height) (of_nat width)) (of_nat maxSize))))
         else (width, height))
      else
        (if height > maxSize
         then (nat (Math_round (js_mul (js_div (of_nat width) (of_nat height)) (of_nat maxSize))),
               maxSize)
         else (width, height)))"

text \<open>
  The expression \<^verbatim>\<open>Math.round((a / b) * maxSize)\<close> that both branches evaluate, with
  \<open>a\<close> the shorter and \<open>b\<close> the longer side.
\<close>

definition minor_side :: "nat \<Rightarrow> nat \<Rightarrow> nat \<Rightarrow> nat" where
  "minor_side a b m = nat (Math_round (js_mul (js_div (of_nat a) (of_nat b)) (of_nat m)))"

section \<open>Strings\<close>

text \<open>
  File names and media types are modelled as strings of 8-bit characters, and letter case
  as ASCII letter case. On these strings \<^verbatim>\<open>toLowerCase\<close> maps \<open>A\<close> to \<open>Z\<close> onto
  \<open>a\<close> to \<open>z\<close> and leaves every other character alone.
\<close>

definition ascii_upper :: string where
  "ascii_upper = ''ABCDEFGHIJKLMNOPQRSTUVWXYZ''"

definition ascii_lower :: string where
  "ascii_lower = ''abcdefghijklmnopqrstuvwxyz''"

definition lower_char :: "char \<Rightarrow> char" where
  "lower_char c = (case map_of (zip ascii_upper ascii_lower) c of Some l \<Rightarrow> l | None \<Rightarrow> c)"

definition toLowerCase :: "string \<Rightarrow> string" where
  "toLowerCase s = map lower_char s"

text \<open>\<^verbatim>\<open>String.prototype.endsWith\<close> with one argument.\<close>

definition endsWith :: "string \<Rightarrow> string \<Rightarrow> bool" where
  "endsWith s searchString =
     (length searchString \<le> length s \<and>
      drop (length s - length searchString) s = searchString)"

text \<open>
  The regular expression \<^verbatim>\<open>/\.(heic|heif)$/i\<close>. Under the flag \<^verbatim>\<open>i\<close> two
  characters match when their canonical forms agree, and the canonical form of an ASCII
  letter is its upper case. The pattern matches at index \<open>i\<close> when exactly five
  characters follow (the \<^verbatim>\<open>$\<close> anchors the match at the end of the input) and they
  are a dot and one of the two words.
\<close>

definition canonicalize :: "char \<Rightarrow> char" where
  "canonicalize c = (case map_of (zip ascii_lower ascii_upper) c of Some u \<Rightarrow> u | None \<Rightarrow> c)"

definition ext_match_at :: "string \<Rightarrow> nat \<Rightarrow> bool" where
  "ext_match_at s i =
     (let rest = drop i s in
      length rest = 5 \<and>
      (map canonicalize rest = map canonicalize ''.heic'' \<or>
       map canonicalize rest = map canonicalize ''.heif''))"

text \<open>
  \<^verbatim>\<open>s.replace(/\.(heic|heif)$/i, '.jpg')\<close>: the regular expression is not global, so
  the leftmost match, if there is one, is replaced.
\<close>

definition replace_ext :: "string \<Rightarrow> string" where
  "replace_ext s =
     (case find (ext_match_at s) [0..<Suc (length s)] of
        None \<Rightarrow> s
      | Some i \<Rightarrow> take i s @ ''.jpg'' @ drop (i + 5) s)"

section \<open>Values, files and the environment\<close>

text \<open>
  What a \<^verbatim>\<open>throw\<close> or a rejected promise carries: an error object with its
  \<^verbatim>\<open>name\<close> and \<^verbatim>\<open>message\<close>, a string, \<^verbatim>\<open>undefined\<close> or \<^verbatim>\<open>null\<close>.
\<close>

datatype thrown = ErrorObj string string | ThrownString string | ThrownUndefined | ThrownNull

definition new_Error :: "string \<Rightarrow> thrown" where
  "new_Error message = ErrorObj ''Error'' message"

definition ReferenceError :: "string \<Rightarrow> thrown" where
  "ReferenceError message = ErrorObj ''ReferenceError'' message"

definition TypeError :: "string \<Rightarrow> thrown" where
  "TypeError message = ErrorObj ''TypeError'' message"

text \<open>
  What the external decoder can resolve to: \<^verbatim>\<open>undefined\<close>, \<^verbatim>\<open>null\<close>, a blob
  (its bytes and media type) or an array of such values.
\<close>

datatype js_value = Undefined | Null | BlobVal "nat list" string | ArrayVal "js_value list"

text \<open>\<^verbatim>\<open>!v\<close> for these values: objects are truthy.\<close>

fun falsy :: "js_value \<Rightarrow> bool" where
  "falsy Undefined = True"
| "falsy Null = True"
| "falsy (BlobVal bytes t) = False"
| "falsy (ArrayVal xs) = False"

text \<open>
  A \<^verbatim>\<open>File\<close> object. Objects live in a store and are referred to by reference;
  \<^verbatim>\<open>new File(...)\<close> allocates the next free reference. The constructor stores
  the media type in ASCII lower case; the one call in the code passes \<open>image/jpeg\<close>,
  which is stored as it is.
\<close>

record File =
  name :: string
  type :: string
  lastModified :: nat
  parts :: "js_value list"

type_synonym ref = nat

text \<open>The observable effects of a call, in the order in which they happen.\<close>

datatype event =
    ConsoleError thrown
  | ReadFile ref
  | DecodeImage string
  | DrawImage nat nat
  | EncodeJpeg rat

record js_state =
  files :: "ref \<Rightarrow> File"
  next_ref :: ref
  events :: "event list"

definition new_File :: "js_state \<Rightarrow> js_value list \<Rightarrow> string \<Rightarrow> string \<Rightarrow> nat \<Rightarrow> ref \<times> js_state" where
  "new_File st fileBits fileName fileType modified =
     (next_ref st,
      st\<lparr>files := (files st)(next_ref st :=
             \<lparr>name = fileName, type = fileType, lastModified = modified, parts = fileBits\<rparr>),
         next_ref := Suc (next_ref st)\<rparr>)"

definition emit :: "event \<Rightarrow> js_state \<Rightarrow> js_state" where
  "emit e st = st\<lparr>events := events st @ [e]\<rparr>"

text \<open>
  The argument of \<^verbatim>\<open>resizeAndConvertToJpeg\<close>: a \<^verbatim>\<open>File\<close>, a string, or any other
  value.
\<close>

datatype js_input = FileRef ref | StringIn string | OtherIn

text \<open>
  The external decoder \<^verbatim>\<open>heic2any\<close> takes an options object and returns a promise;
  \<open>Inl\<close> is a synchronous throw or a rejection, \<open>Inr\<close> the value it resolves to.
\<close>

record decoder_args =
  opt_blob :: File
  opt_toType :: string
  opt_quality :: rat

type_synonym decoder = "decoder_args \<Rightarrow> thrown + js_value"

datatype window_obj = Window (window_heic2any: "decoder option")

text \<open>
  The environment of a call. \<open>heic2any env = None\<close> means
  \<^verbatim>\<open>typeof heic2any === 'undefined'\<close>; \<open>window env = None\<close> means that there is
  no global \<^verbatim>\<open>window\<close>; \<open>window_heic2any w = None\<close> means
  \<^verbatim>\<open>typeof window.heic2any === 'undefined'\<close>. \<open>readAsDataURL\<close> answers \<open>None\<close>
  when the reader fires \<^verbatim>\<open>onerror\<close>, \<open>Image_load\<close> answers \<open>None\<close> when the image
  fires \<^verbatim>\<open>onerror\<close> and otherwise the \<^verbatim>\<open>width\<close> and \<^verbatim>\<open>height\<close> of the loaded
  image. \<open>toDataURL\<close> is the canvas encoder: it is given the image source, the canvas
  dimensions and the quality. Canvas creation and drawing are taken to succeed.
\<close>

record env =
  heic2any :: "decoder option"
  window :: "window_obj option"
  Date_now :: nat
  readAsDataURL :: "File \<Rightarrow> string option"
  Image_load :: "string \<Rightarrow> (nat \<times> nat) option"
  toDataURL :: "string \<Rightarrow> nat \<Rightarrow> nat \<Rightarrow> rat \<Rightarrow> string"

section \<open>\<^verbatim>\<open>isHeicFile\<close>\<close>

definition isHeicFile :: "js_state \<Rightarrow> js_input \<Rightarrow> bool" where
  "isHeicFile st file =
     (case file of
        FileRef r \<Rightarrow>
          (let fileName = toLowerCase (name (files st r));
               mimeType = toLowerCase (type (files st r))
           in endsWith fileName ''.heic'' \<or>
              endsWith fileName ''.heif'' \<or>
              mimeType = ''image/heic'' \<or>
              mimeType = ''image/heif'')
      | StringIn s \<Rightarrow> False
      | OtherIn \<Rightarrow> False)"

section \<open>\<^verbatim>\<open>convertHeicToJpeg\<close>\<close>

text \<open>The condition of the \<^verbatim>\<open>if\<close> in line 27; \<^verbatim>\<open>&&\<close> evaluates from the left.\<close>

definition heic2any_not_loaded :: "env \<Rightarrow> bool" where
  "heic2any_not_loaded env =
     (heic2any env = None \<and>
      (case window env of None \<Rightarrow> False | Some w \<Rightarrow> window_heic2any w = None))"

text \<open>
  Line 31: \<^verbatim>\<open>typeof heic2any !== 'undefined' ? heic2any : window.heic2any\<close>. Reading
  \<^verbatim>\<open>window\<close> where no such global exists throws a \<^verbatim>\<open>ReferenceError\<close>.
\<close>

definition heicConverter_of :: "env \<Rightarrow> thrown + decoder option" where
  "heicConverter_of env =
     (case heic2any env of
        Some d \<Rightarrow> Inr (Some d)
      | None \<Rightarrow>
          (case window env of
             None \<Rightarrow> Inl (ReferenceError ''window is not defined'')
           | Some w \<Rightarrow> Inr (window_heic2any w)))"

text \<open>
  The body of the \<^verbatim>\<open>try\<close> block, lines 34 to 53. Calling a value that is not a
  function throws a \<^verbatim>\<open>TypeError\<close>; the index 0 of an empty array is
  \<^verbatim>\<open>undefined\<close>.
\<close>

definition try_convert :: "env \<Rightarrow> js_state \<Rightarrow> ref \<Rightarrow> decoder option \<Rightarrow> (thrown + ref) \<times> js_state" where
  "try_convert env st heicFile heicConverter =
     (case heicConverter of
        None \<Rightarrow> (Inl (TypeError ''heicConverter is not a function''), st)
      | Some conv \<Rightarrow>
          (case conv \<lparr>opt_blob = files st heicFile, opt_toType = ''image/jpeg'', opt_quality = 1\<rparr> of
             Inl error \<Rightarrow> (Inl error, st)
           | Inr convertedResult \<Rightarrow>
               (let blob = (case convertedResult of
                              ArrayVal xs \<Rightarrow> (case xs of [] \<Rightarrow> Undefined | x # rest \<Rightarrow> x)
                            | Undefined \<Rightarrow> convertedResult
                            | Null \<Rightarrow> convertedResult
                            | BlobVal bytes t \<Rightarrow> convertedResult)
                in if falsy blob
                   then (Inl (new_Error ''Conversion returned no result''), st)
                   else (case new_File st [blob] (replace_ext (name (files st heicFile)))
                                ''image/jpeg'' (Date_now env) of
                           (jpegFile, st') \<Rightarrow> (Inr jpegFile, st')))))"

text \<open>
  \<^verbatim>\<open>error.message || error\<close>, as the operand of a string concatenation. An error
  object with an empty message is converted by \<^verbatim>\<open>Error.prototype.toString\<close>, which
  then answers its name. A string has no property \<^verbatim>\<open>message\<close>, so the string itself is
  taken. Reading a property of \<^verbatim>\<open>undefined\<close> or \<^verbatim>\<open>null\<close> throws a
  \<^verbatim>\<open>TypeError\<close>.
\<close>

fun message_or_self :: "thrown \<Rightarrow> thrown + string" where
  "message_or_self (ErrorObj n message) = Inr (if message \<noteq> [] then message else n)"
| "message_or_self (ThrownString s) = Inr s"
| "message_or_self ThrownUndefined =
     Inl (TypeError ''Cannot read properties of undefined (reading message)'')"
| "message_or_self ThrownNull =
     Inl (TypeError ''Cannot read properties of null (reading message)'')"

text \<open>The \<^verbatim>\<open>catch\<close> block, lines 54 to 57.\<close>

definition catch_convert :: "thrown \<Rightarrow> js_state \<Rightarrow> (thrown + ref) \<times> js_state" where
  "catch_convert error st =
     (let st' = emit (ConsoleError error) st in
      case message_or_self error of
        Inl e \<Rightarrow> (Inl e, st')
      | Inr txt \<Rightarrow> (Inl (new_Error (''Failed to convert HEIC file: '' @ txt)), st'))"

definition convertHeicToJpeg :: "env \<Rightarrow> js_state \<Rightarrow> ref \<Rightarrow> (thrown + ref) \<times> js_state" where
  "convertHeicToJpeg env st heicFile =
     (if heic2any_not_loaded env
      then (Inl (new_Error ''heic2any library is not loaded. Please include the library script.''), st)
      else
        (case heicConverter_of env of
           Inl e \<Rightarrow> (Inl e, st)
         | Inr heicConverter \<Rightarrow>
             (case try_convert env st heicFile heicConverter of
                (Inl error, st') \<Rightarrow> catch_convert error st'
              | (Inr jpegFile, st') \<Rightarrow> (Inr jpegFile, st'))))"

section \<open>\<^verbatim>\<open>resizeAndConvertToJpeg\<close>\<close>

text \<open>
  What happens once \<^verbatim>\<open>img.src\<close> is set: the image fires \<^verbatim>\<open>onerror\<close>, or it fires
  \<^verbatim>\<open>onload\<close>, whose handler computes the dimensions, draws and encodes.
\<close>

definition load_image :: "env \<Rightarrow> js_state \<Rightarrow> string \<Rightarrow> nat \<Rightarrow> rat \<Rightarrow> (thrown + string) \<times> js_state" where
  "load_image env st src maxSize quality =
     (case Image_load env src of
        None \<Rightarrow> (Inl (new_Error ''Failed to load image''), emit (DecodeImage src) st)
      | Some (w, h) \<Rightarrow>
          (case onload_dimensions w h maxSize of
             (width, height) \<Rightarrow>
               (Inr (toDataURL env src width height quality),
                emit (EncodeJpeg quality)
                  (emit (DrawImage width height) (emit (DecodeImage src) st)))))"

text \<open>
  The function itself; \<open>Inl\<close> is a rejected promise, \<open>Inr\<close> a resolved one. The
  parameters \<^verbatim>\<open>maxSize\<close> and \<^verbatim>\<open>quality\<close> default to 512 and 0.9 at the call.
\<close>

definition resizeAndConvertToJpeg ::
    "env \<Rightarrow> js_state \<Rightarrow> js_input \<Rightarrow> nat \<Rightarrow> rat \<Rightarrow> (thrown + string) \<times> js_state" where
  "resizeAndConvertToJpeg env st input maxSize quality =
     (case (case input of
              FileRef r \<Rightarrow>
                (if isHeicFile st input
                 then (case convertHeicToJpeg env st r of
                         (Inl e, st') \<Rightarrow> (Inl e, st')
                       | (Inr jpegFile, st') \<Rightarrow> (Inr (FileRef jpegFile), st'))
                 else (Inr input, st))
            | StringIn s \<Rightarrow> (Inr input, st)
            | OtherIn \<Rightarrow> (Inr input, st)) of
        (Inl e, st') \<Rightarrow> (Inl e, st')
      | (Inr processedInput, st') \<Rightarrow>
          (case processedInput of
             FileRef r \<Rightarrow>
               (case readAsDataURL env (files st' r) of
                  None \<Rightarrow> (Inl (new_Error ''Failed to read file''), emit (ReadFile r) st')
                | Some url \<Rightarrow> load_image env (emit (ReadFile r) st') url maxSize quality)
           | StringIn s \<Rightarrow> load_image env st' s maxSize quality
           | OtherIn \<Rightarrow>
               (Inl (new_Error ''Invalid input: expected File or data URL string''), st')))"

section \<open>The specification's reference definitions\<close>

text \<open>Rounding to the nearest integer, a tie going away from zero.\<close>

definition round_half_away :: "rat \<Rightarrow> int" where
  "round_half_away x = (if 0 \<le> x then \<lfloor>x + 1 / 2\<rfloor> else - \<lfloor>- x + 1 / 2\<rfloor>)"

text \<open>The target dimensions as the specification words them, in exact arithmetic.\<close>

definition spec_dimensions :: "nat \<Rightarrow> nat \<Rightarrow> nat \<Rightarrow> nat \<times> nat" where
  "spec_dimensions w h maxSize =
     (if w > h \<and> w > maxSize
      then (maxSize, nat (round_half_away (of_nat h * of_nat maxSize / of_nat w)))
      else if h \<ge> w \<and> h > maxSize
      then (nat (round_half_away (of_nat w * of_nat maxSize / of_nat h)), maxSize)
      else (w, h))"

text \<open>
  \<open>exact_tie a b m\<close>: the exact value \<open>a * m / b\<close> lies half way between two integers,
  that is \<open>a * m / b + 1 / 2\<close> is an integer.
\<close>

definition exact_tie :: "nat \<Rightarrow> nat \<Rightarrow> nat \<Rightarrow> bool" where
  "exact_tie a b m \<longleftrightarrow> (2 * a * m + b) mod (2 * b) = 0"

text \<open>
  Two strings are equal up to letter case; a string ends in an extension up to letter
  case when its last characters, as many as the extension has, equal it up to case.
\<close>

definition same_ignoring_case :: "string \<Rightarrow> string \<Rightarrow> bool" where
  "same_ignoring_case a b \<longleftrightarrow> map lower_char a = map lower_char b"

definition ends_with_ignoring_case :: "string \<Rightarrow> string \<Rightarrow> bool" where
  "ends_with_ignoring_case s ext \<longleftrightarrow>
     length ext \<le> length s \<and> same_ignoring_case (drop (length s - length ext) s) ext"

text \<open>The file name with a trailing legacy extension replaced by \<open>.jpg\<close>.\<close>

definition spec_jpg_name :: "string \<Rightarrow> string" where
  "spec_jpg_name s =
     (if ends_with_ignoring_case s ''.heic'' \<or> ends_with_ignoring_case s ''.heif''
      then take (length s - 5) s @ ''.jpg''
      else s)"

section \<open>Example values\<close>

text \<open>
  A store whose files all carry the given name and media type, an environment with the
  given bindings of \<^verbatim>\<open>heic2any\<close> and \<^verbatim>\<open>window\<close>, and a decoder that resolves to
  an array of one blob. They serve as concrete inputs below.
\<close>

definition example_state :: "string \<Rightarrow> string \<Rightarrow> js_state" where
  "example_state fileName fileType =
     \<lparr>files = (\<lambda>r. \<lparr>name = fileName, type = fileType, lastModified = 0, parts = []\<rparr>),
      next_ref = 1, events = []\<rparr>"

definition example_env :: "decoder option \<Rightarrow> window_obj option \<Rightarrow> env" where
  "example_env global_heic2any global_window =
     \<lparr>heic2any = global_heic2any, window = global_window, Date_now = 1700000000000,
      readAsDataURL = (\<lambda>f. None), Image_load = (\<lambda>src. None),
      toDataURL = (\<lambda>src w h q. ''data:image/jpeg;base64,'')\<rparr>"

definition example_decoder :: decoder where
  "example_decoder args = Inr (ArrayVal [BlobVal [255, 216, 255] ''image/jpeg''])"

text \<open>
  An environment with four images that load, each with its width and height. Its canvas
  encoder answers \<open>data:,\<close> for a canvas without pixels, as the HTML standard has it,
  and that string does not load as an image; the encoding of a canvas of 512 by 384 loads
  at 512 by 384.
\<close>

definition example_canvas_env :: env where
  "example_canvas_env =
     \<lparr>heic2any = None, window = None, Date_now = 1700000000000,
      readAsDataURL = (\<lambda>f. None),
      Image_load = map_of
        [(''photo.jpg'', (4000, 3000)),
         (''small.png'', (300, 200)),
         (''wide.png'', (10000, 1)),
         (''data:image/jpeg;512x384'', (512, 384))],
      toDataURL = (\<lambda>src w h q.
        if w = 0 \<or> h = 0 then ''data:,''
        else if w = 512 \<and> h = 384 then ''data:image/jpeg;512x384''
        else ''data:image/jpeg;other'')\<rparr>"

section \<open>Properties of the rounding model\<close>

text \<open>
  The exponent brackets its argument, so the scaled significand lies between \<open>2 ^ 52\<close>
  and \<open>2 ^ 53\<close>; rounding changes a positive value \<open>x\<close> by at most \<open>x / 2 ^ 53\<close>;
  a value below an integer bound under \<open>2 ^ 53\<close> is not rounded beyond that bound; and
  the integers under \<open>2 ^ 53\<close> are represented exactly, so that \<^verbatim>\<open>img.width\<close>,
  \<^verbatim>\<open>img.height\<close> and \<^verbatim>\<open>maxSize\<close> enter the computation unchanged.
\<close>

lemma quotient_of_pos:
  assumes "0 < x" "quotient_of x = (p, q)"
  shows "0 < p" "0 < q" "x = of_int p / of_int q"
  using assms quotient_of_denom_pos[of x p q] quotient_of_div[of x p q] 
  by (auto simp: zero_less_divide_iff)

lemma powi_bitlen_bounds:
  assumes "0 < p"
  shows "(2::rat) powi (bitlen p - 1) \<le> of_int p" "of_int p < (2::rat) powi (bitlen p)"
proof -
  from bitlen_bounds[OF assms] have a: "2 ^ nat (bitlen p - 1) \<le> p" and b: "p < 2 ^ nat (bitlen p)"
    by auto
  have ge: "1 \<le> bitlen p" using assms by (auto simp: bitlen_alt_def)
  have "(of_int (2 ^ nat (bitlen p - 1))::rat) \<le> of_int p" using a by (simp only: of_int_le_iff)
  then show "(2::rat) powi (bitlen p - 1) \<le> of_int p"
    using ge by (simp add: power_int_def)
  have "(of_int p :: rat) < of_int (2 ^ nat (bitlen p))" using b by (simp only: of_int_less_iff)
  then show "of_int p < (2::rat) powi (bitlen p)"
    using ge by (simp add: power_int_def)
qed

lemma binade_bounds:
  assumes "0 < x"
  shows "2 powi binade x \<le> x" "x < 2 powi (binade x + 1)"
proof -
  obtain p q where pq: "quotient_of x = (p, q)" by (cases "quotient_of x")
  note P = quotient_of_pos[OF assms pq]
  let ?d = "bitlen p - bitlen q"
  have lo: "(2::rat) powi (?d - 1) \<le> x"
  proof -
    have "(2::rat) powi (?d - 1) = 2 powi (bitlen p - 1) / 2 powi bitlen q"
      by (simp add: power_int_diff)
    also have "\<dots> \<le> of_int p / 2 powi bitlen q"
      using powi_bitlen_bounds(1)[OF P(1)] by (simp add: divide_right_mono)
    also have "\<dots> \<le> of_int p / of_int q"
      using powi_bitlen_bounds(2)[OF P(2)] P by (intro divide_left_mono) (auto simp: less_imp_le)
    finally show ?thesis using P(3) by simp
  qed
  have hi: "x < (2::rat) powi (?d + 1)"
  proof -
    have "x = of_int p / of_int q" by (rule P(3))
    also have "\<dots> < 2 powi bitlen p / of_int q"
      using powi_bitlen_bounds(2)[OF P(1)] P(2) by (simp add: divide_strict_right_mono)
    also have "\<dots> \<le> 2 powi bitlen p / 2 powi (bitlen q - 1)"
      using powi_bitlen_bounds(1)[OF P(2)] P(2) by (intro divide_left_mono) (auto simp: zero_less_mult_iff)
    also have "\<dots> = 2 powi (?d + 1)"
      by (simp add: power_int_diff power_int_add)
    finally show ?thesis .
  qed
  show "2 powi binade x \<le> x"
    using lo pq by (auto simp: binade_def Let_def)
  show "x < 2 powi (binade x + 1)"
    using hi pq by (auto simp: binade_def Let_def not_le)
qed

lemma round_ties_even_cases:
  "round_ties_even r = \<lfloor>r\<rfloor> \<or> round_ties_even r = \<lfloor>r\<rfloor> + 1"
  by (auto simp: round_ties_even_def Let_def)

lemma round_ties_even_error: "\<bar>of_int (round_ties_even r) - r\<bar> \<le> 1 / 2"
proof -
  have "of_int \<lfloor>r\<rfloor> \<le> r" "r < of_int \<lfloor>r\<rfloor> + 1" by linarith+
  then show ?thesis
    by (auto simp: round_ties_even_def Let_def abs_le_iff) 
qed

lemma round_ties_even_le: "r \<le> of_int n \<Longrightarrow> round_ties_even r \<le> n"
proof -
  assume a: "r \<le> of_int n"
  show ?thesis
  proof (cases "r = of_int n")
    case True
    then show ?thesis by (simp add: round_ties_even_def)
  next
    case False
    with a have "r < of_int n" by simp
    then have "\<lfloor>r\<rfloor> < n" by (simp add: floor_less_iff)
    then show ?thesis using round_ties_even_cases[of r] by auto
  qed
qed

lemma round_ties_even_nonneg: "0 \<le> r \<Longrightarrow> 0 \<le> round_ties_even r"
  using round_ties_even_cases[of r] by (auto simp: zero_le_floor)

lemma fl_nonneg: "0 \<le> fl x"
  by (auto simp: fl_def Let_def intro!: mult_nonneg_nonneg round_ties_even_nonneg divide_nonneg_pos)

lemma fl_zero: "fl 0 = 0"
  by (simp add: fl_def)

lemma fl_error:
  assumes "0 < x"
  shows "\<bar>fl x - x\<bar> \<le> x / 2 ^ 53"
proof -
  define u :: rat where "u = 2 powi (binade x - 52)"
  have u: "0 < u" by (simp add: u_def)
  have "fl x - x = u * (of_int (round_ties_even (x / u)) - x / u)"
    using assms u by (simp add: fl_def Let_def u_def[symmetric] algebra_simps)
  then have "\<bar>fl x - x\<bar> = u * \<bar>of_int (round_ties_even (x / u)) - x / u\<bar>"
    using u by (simp add: abs_mult)
  also have "\<dots> \<le> u * (1 / 2)"
    using u round_ties_even_error[of "x / u"] by (intro mult_left_mono) auto
  also have "\<dots> = 2 powi binade x / 2 ^ 53"
    by (simp add: u_def power_int_diff)
  also have "\<dots> \<le> x / 2 ^ 53"
    using binade_bounds(1)[OF assms] by (simp add: divide_right_mono)
  finally show ?thesis .
qed

lemma fl_le_nat:
  assumes "x \<le> of_nat n" "n < 2 ^ 53"
  shows "fl x \<le> of_nat n"
proof (cases "0 < x")
  case False
  then show ?thesis by (simp add: fl_def)
next
  case True
  define e where "e = binade x"
  have "(2::rat) powi e \<le> x" using binade_bounds(1)[OF True] by (simp add: e_def)
  also have "x \<le> of_nat n" by fact
  also have "(of_nat n :: rat) < 2 ^ 53" using assms(2) 
    by (metis of_nat_less_iff of_nat_numeral of_nat_power)
  finally have "(2::rat) powi e < 2 powi 53" by simp
  then have "e < 53"
    by (rule power_int_le_imp_less_exp[rotated]) simp_all
  then have e: "e \<le> 52" by simp
  define k where "k = nat (52 - e)"
  have u: "(2::rat) powi (e - 52) = 1 / 2 ^ k"
    using e by (simp add: k_def power_int_def field_simps)
  have "x / (1 / 2 ^ k) \<le> of_int (int n * 2 ^ k)"
    using assms(1) by (simp add: mult_right_mono)
  then have "round_ties_even (x / (1 / 2 ^ k)) \<le> int n * 2 ^ k"
    by (rule round_ties_even_le)
  then have "(of_int (round_ties_even (x / (1 / 2 ^ k))) :: rat) \<le> of_int (int n * 2 ^ k)"
    by (simp only: of_int_le_iff)
  then have "of_int (round_ties_even (x / (1 / 2 ^ k))) * (1 / 2 ^ k) \<le> (of_nat n :: rat)"
    by (simp add: field_simps)
  then show ?thesis
    using True u by (simp add: fl_def Let_def e_def[symmetric])
qed

lemma round_ties_even_of_int: "round_ties_even (of_int z) = z"
  by (simp add: round_ties_even_def)

lemma significand_range:
  assumes "0 < x"
  shows "2 ^ 52 \<le> x / 2 powi (binade x - 52)" "x / 2 powi (binade x - 52) < 2 ^ 53"
proof -
  define s where "s = x / 2 powi binade x"
  have p: "(0::rat) < 2 powi binade x" by simp
  have eq: "x / 2 powi (binade x - 52) = s * 2 ^ 52"
    by (simp add: s_def power_int_diff)
  have "1 \<le> s"
    using binade_bounds(1)[OF assms] p by (simp add: s_def le_divide_eq)
  then have "1 * 2 ^ 52 \<le> s * 2 ^ 52" by (intro mult_right_mono) auto
  then show "2 ^ 52 \<le> x / 2 powi (binade x - 52)" by (simp add: eq)
  have "s < 2"
    using binade_bounds(2)[OF assms] p
    by (simp add: s_def divide_less_eq power_int_add mult.commute)
  then have "s * 2 ^ 52 < 2 * 2 ^ 52" by (intro mult_strict_right_mono) auto
  then show "x / 2 powi (binade x - 52) < 2 ^ 53" by (simp add: eq)
qed

lemma fl_of_nat:
  assumes "n < 2 ^ 53"
  shows "fl (of_nat n) = of_nat n"
proof (cases "n = 0")
  case True
  then show ?thesis by (simp add: fl_def)
next
  case False
  define x :: rat where "x = of_nat n"
  have pos: "0 < x" using False by (simp add: x_def)
  define e where "e = binade x"
  have "(2::rat) powi e \<le> x" using binade_bounds(1)[OF pos] by (simp add: e_def)
  also have "x < 2 ^ 53" unfolding x_def using assms
    by (metis of_nat_less_iff of_nat_numeral of_nat_power)
  finally have "(2::rat) powi e < 2 powi 53" by simp
  then have "e < 53"
    by (rule power_int_le_imp_less_exp[rotated]) simp_all
  then have e: "e \<le> 52" by simp
  define k where "k = nat (52 - e)"
  have u: "(2::rat) powi (e - 52) = 1 / 2 ^ k"
    using e by (simp add: k_def power_int_def field_simps)
  have "x / (1 / 2 ^ k) = of_int (int n * 2 ^ k)" by (simp add: x_def)
  then have "round_ties_even (x / (1 / 2 ^ k)) = int n * 2 ^ k"
    by (simp only: round_ties_even_of_int)
  then have "fl x = of_int (int n * 2 ^ k) * (1 / 2 ^ k)"
    using pos u by (simp add: fl_def Let_def e_def[symmetric])
  then show ?thesis by (simp add: x_def)
qed

text \<open>
  Some values, as every implementation of binary64 computes them: the doubles nearest to
  0.1 and to one third, and two ties between neighbouring doubles, which go to the even
  significand.
\<close>

lemma fl_tenth: "fl (1 / 10) = 3602879701896397 / 2 ^ 55"
  by code_simp

lemma fl_third: "fl (1 / 3) = 6004799503160661 / 2 ^ 54"
  by code_simp

lemma fl_ties_to_even: "fl (2 ^ 53 + 1) = 2 ^ 53" "fl (2 ^ 53 + 3) = 2 ^ 53 + 4"
  by code_simp+

section \<open>Properties of the dimension computation\<close>

text \<open>
  The shorter side divided by the longer is at most 1, also after rounding; so the
  product with \<open>maxSize\<close> is at most \<open>maxSize\<close>, also after rounding.
\<close>

lemma js_div_le_one:
  assumes "a \<le> b" "0 < b"
  shows "js_div (of_nat a) (of_nat b) \<le> 1"
proof -
  have "(of_nat a :: rat) / of_nat b \<le> of_nat 1"
    using assms by (simp add: divide_le_eq_1)
  then have "fl (of_nat a / of_nat b) \<le> of_nat 1"
    by (rule fl_le_nat) simp
  then show ?thesis by (simp add: js_div_def)
qed

lemma js_mul_div_le:
  assumes "a \<le> b" "0 < b" "m < 2 ^ 53"
  shows "js_mul (js_div (of_nat a) (of_nat b)) (of_nat m) \<le> of_nat m"
proof -
  have "js_div (of_nat a) (of_nat b) * of_nat m \<le> 1 * of_nat m"
    using js_div_le_one[OF assms(1,2)] by (intro mult_right_mono) auto
  then have "js_div (of_nat a) (of_nat b) * of_nat m \<le> of_nat m" by simp
  then have "fl (js_div (of_nat a) (of_nat b) * of_nat m) \<le> of_nat m"
    using assms(3) by (rule fl_le_nat)
  then show ?thesis by (simp add: js_mul_def)
qed

text \<open>
  The two roundings together move the result away from the exact value \<open>a * m / b\<close> by
  a relative error of at most \<open>3 / 2 ^ 53\<close>.
\<close>

lemma js_mul_div_error:
  assumes "0 < b"
  shows "\<bar>js_mul (js_div (of_nat a) (of_nat b)) (of_nat m) - of_nat a * of_nat m / of_nat b\<bar>
           \<le> 3 * (of_nat a * of_nat m / of_nat b) / 2 ^ 53"
proof (cases "a = 0 \<or> m = 0")
  case True
  then show ?thesis by (auto simp: js_mul_def js_div_def fl_zero)
next
  case False
  define u :: rat where "u = 1 / 2 ^ 53"
  define q :: rat where "q = of_nat a / of_nat b"
  define q1 where "q1 = fl q"
  define M :: rat where "M = of_nat m"
  define t where "t = q1 * M"
  define x where "x = q * M"
  have u: "0 < u" "u < 1" by (simp_all add: u_def)
  have q: "0 < q" using False assms by (simp add: q_def)
  have M: "0 < M" using False by (simp add: M_def)
  have x: "0 < x" using q M by (simp add: x_def)
  have eq: "\<bar>q1 - q\<bar> \<le> q * u"
    using fl_error[OF q] by (simp add: q1_def u_def)
  then have "q * (1 - u) \<le> q1" by (simp add: abs_le_iff algebra_simps)
  moreover have "0 < q * (1 - u)" using q u by simp
  ultimately have q1: "0 < q1" by linarith
  have t: "0 < t" using q1 M by (simp add: t_def)
  have tx: "\<bar>t - x\<bar> \<le> x * u"
  proof -
    have "\<bar>t - x\<bar> = \<bar>q1 - q\<bar> * M"
      using M by (simp add: t_def x_def abs_mult flip: left_diff_distrib)
    also have "\<dots> \<le> (q * u) * M" using eq M by (intro mult_right_mono) auto
    finally show ?thesis by (simp add: x_def algebra_simps)
  qed
  then have tle: "t \<le> x * (1 + u)" by (simp add: abs_le_iff algebra_simps)
  have yt: "\<bar>fl t - t\<bar> \<le> t * u"
    using fl_error[OF t] by (simp add: u_def)
  also have "t * u \<le> (x * (1 + u)) * u"
    using tle u by (intro mult_right_mono) auto
  finally have "\<bar>fl t - t\<bar> \<le> x * (1 + u) * u" .
  with tx have "\<bar>fl t - x\<bar> \<le> x * (1 + u) * u + x * u" by linarith
  also have "\<dots> = x * u * (2 + u)" by (simp add: algebra_simps)
  also have "\<dots> \<le> x * u * 3"
    using x u by (intro mult_left_mono) auto
  finally have "\<bar>fl t - x\<bar> \<le> 3 * x / 2 ^ 53" by (simp add: u_def)
  then show ?thesis
    by (simp add: js_mul_def js_div_def t_def q1_def q_def x_def M_def)
qed

lemma Math_round_nonneg: "0 \<le> x \<Longrightarrow> 0 \<le> Math_round x"
  by (simp add: Math_round_def)

lemma Math_round_le_nat: "x \<le> of_nat m \<Longrightarrow> Math_round x \<le> int m"
proof -
  assume "x \<le> of_nat m"
  then have "x + 1 / 2 < of_int (int m + 1)" by simp
  then have "\<lfloor>x + 1 / 2\<rfloor> < int m + 1" by (simp only: floor_less_iff)
  then show ?thesis by (simp add: Math_round_def)
qed

lemma Math_round_error: "\<bar>of_int (Math_round x) - x\<bar> \<le> 1 / 2"
  unfolding Math_round_def by linarith

text \<open>
  The exact value plus one half is a multiple of \<open>1 / (2 * b)\<close>. A value closer to it
  than \<open>1 / (2 * b)\<close> has the same floor, unless the exact value is a tie, where the
  floor may be one less.
\<close>

lemma half_grid:
  fixes a b m :: nat
  assumes b: "0 < b"
  defines "N \<equiv> 2 * a * m + b"
  shows "(of_nat a * of_nat m / of_nat b + 1 / 2 :: rat)
           = of_nat (N div (2 * b)) + of_nat (N mod (2 * b)) / (2 * of_nat b)"
    and "\<lfloor>(of_nat a * of_nat m / of_nat b + 1 / 2 :: rat)\<rfloor> = int (N div (2 * b))"
proof -
  have X: "(of_nat a * of_nat m / of_nat b + 1 / 2 :: rat) = of_nat N / of_nat (2 * b)"
    using b by (simp add: N_def field_simps)
  have "of_nat N = (of_nat (2 * b * (N div (2 * b)) + N mod (2 * b)) :: rat)"
    by simp
  also have "\<dots> = of_nat (2 * b) * of_nat (N div (2 * b)) + of_nat (N mod (2 * b))"
    by (simp only: of_nat_add of_nat_mult)
  finally have "(of_nat N :: rat) / of_nat (2 * b)
       = of_nat (N div (2 * b)) + of_nat (N mod (2 * b)) / of_nat (2 * b)"
    using b by (simp add: field_simps)
  with X show "(of_nat a * of_nat m / of_nat b + 1 / 2 :: rat)
           = of_nat (N div (2 * b)) + of_nat (N mod (2 * b)) / (2 * of_nat b)"
    by simp
  show "\<lfloor>(of_nat a * of_nat m / of_nat b + 1 / 2 :: rat)\<rfloor> = int (N div (2 * b))"
    unfolding X by (simp only: floor_divide_of_nat_eq)
qed

lemma floor_near_grid:
  fixes y :: rat and n r b :: nat
  assumes b: "0 < b" and r: "r < 2 * b"
    and d: "\<bar>y - (of_nat n + of_nat r / (2 * of_nat b))\<bar> < 1 / (2 * of_nat b)"
  shows "\<lfloor>y\<rfloor> = int n \<or> (r = 0 \<and> \<lfloor>y\<rfloor> = int n - 1)"
proof (cases "r = 0")
  case True
  have "1 / (2 * of_nat b) \<le> (1::rat)" using b by simp
  with d True have "of_int (int n - 1) \<le> y" "y < of_int (int n) + 1"
    by (simp_all add: abs_less_iff)
  then have "int n - 1 \<le> \<lfloor>y\<rfloor>" "\<lfloor>y\<rfloor> < int n + 1"
    by (simp_all only: le_floor_iff floor_less_iff of_int_add of_int_1)
  with True show ?thesis by auto
next
  case False
  then have r1: "1 \<le> r" and r2: "r + 1 \<le> 2 * b" using r by auto
  have "(of_nat 1 :: rat) \<le> of_nat r" using r1 by (simp only: of_nat_le_iff)
  then have lo: "1 / (2 * of_nat b) \<le> (of_nat r :: rat) / (2 * of_nat b)"
    using b by (simp add: divide_right_mono)
  have "(of_nat (r + 1) :: rat) \<le> of_nat (2 * b)" using r2 by (simp only: of_nat_le_iff)
  then have "(of_nat r :: rat) + 1 \<le> 2 * of_nat b" by simp
  then have "((of_nat r :: rat) + 1) / (2 * of_nat b) \<le> 1"
    using b by (simp add: divide_le_eq_1)
  then have hi': "(of_nat r :: rat) / (2 * of_nat b) + 1 / (2 * of_nat b) \<le> 1"
    by (simp add: add_divide_distrib)
  from d lo hi' have "of_int (int n) \<le> y" "y < of_int (int n) + 1"
    by (simp_all add: abs_less_iff)
  then have "\<lfloor>y\<rfloor> = int n" by (simp only: floor_unique)
  then show ?thesis by simp
qed

text \<open>The computation in terms of \<open>minor_side\<close>, and what \<open>minor_side\<close> satisfies.\<close>

lemma onload_dimensions_minor:
  "onload_dimensions width height maxSize =
     (if width > height then
        (if width > maxSize then (maxSize, minor_side height width maxSize) else (width, height))
      else
        (if height > maxSize then (minor_side width height maxSize, maxSize) else (width, height)))"
  by (simp add: onload_dimensions_def minor_side_def)

lemma minor_side_le:
  assumes "a \<le> b" "0 < b" "m < 2 ^ 53"
  shows "minor_side a b m \<le> m"
proof -
  have "Math_round (js_mul (js_div (of_nat a) (of_nat b)) (of_nat m)) \<le> int m"
    using js_mul_div_le[OF assms] by (rule Math_round_le_nat)
  then show ?thesis by (simp add: minor_side_def)
qed

lemma js_mul_nonneg: "0 \<le> js_mul x y"
  by (simp add: js_mul_def fl_nonneg)

lemma int_minor_side:
  "int (minor_side a b m) = Math_round (js_mul (js_div (of_nat a) (of_nat b)) (of_nat m))"
  by (simp add: minor_side_def Math_round_nonneg js_mul_nonneg)

lemma minor_side_within_one:
  assumes "a \<le> b" "0 < b" "m < 2 ^ 32"
  shows "\<bar>of_nat (minor_side a b m) - of_nat a * of_nat m / of_nat b :: rat\<bar> \<le> 1"
proof -
  let ?y = "js_mul (js_div (of_nat a) (of_nat b)) (of_nat m)"
  let ?x = "of_nat a * of_nat m / of_nat b :: rat"
  have "(of_nat a :: rat) / of_nat b \<le> 1" using assms by (simp add: divide_le_eq_1)
  then have "(of_nat a :: rat) / of_nat b * of_nat m \<le> 1 * of_nat m"
    by (intro mult_right_mono) auto
  then have "?x \<le> of_nat m" by simp
  also have "(of_nat m :: rat) < of_nat (2 ^ 32)" using assms(3) by (simp only: of_nat_less_iff)
  finally have "?x < 2 ^ 32" by simp
  then have "3 * ?x / 2 ^ 53 \<le> 1 / 2" by simp
  with js_mul_div_error[OF assms(2), of a m] have "\<bar>?y - ?x\<bar> \<le> 1 / 2" by linarith
  moreover have "\<bar>of_int (Math_round ?y) - ?y\<bar> \<le> 1 / 2" by (rule Math_round_error)
  ultimately have "\<bar>of_int (Math_round ?y) - ?x\<bar> \<le> 1" by linarith
  moreover have "(of_nat (minor_side a b m) :: rat) = of_int (Math_round ?y)"
    using int_minor_side[of a b m] by (metis of_int_of_nat_eq)
  ultimately show ?thesis by simp
qed

lemma minor_side_reference:
  assumes b: "0 < b" and small: "6 * a * m < 2 ^ 53"
  shows "int (minor_side a b m) = round_half_away (of_nat a * of_nat m / of_nat b)
       \<or> (exact_tie a b m
          \<and> int (minor_side a b m) + 1 = round_half_away (of_nat a * of_nat m / of_nat b))"
proof -
  let ?y = "js_mul (js_div (of_nat a) (of_nat b)) (of_nat m)"
  let ?x = "of_nat a * of_nat m / of_nat b :: rat"
  define N where "N = 2 * a * m + b"
  have ref: "round_half_away ?x = int (N div (2 * b))"
    using half_grid(2)[OF b, of a m] by (simp add: round_half_away_def N_def)
  have grid: "?x + 1 / 2 = of_nat (N div (2 * b)) + of_nat (N mod (2 * b)) / (2 * of_nat b)"
    using half_grid(1)[OF b, of a m] by (simp add: N_def)
  have "(of_nat (6 * a * m) :: rat) < of_nat (2 ^ 53)" using small by (simp only: of_nat_less_iff)
  then have "6 * (of_nat a * of_nat m :: rat) < 2 ^ 53" by simp
  then have "3 * (of_nat a * of_nat m :: rat) / 2 ^ 53 < 1 / 2" by simp
  then have "3 * (of_nat a * of_nat m :: rat) / 2 ^ 53 / of_nat b < 1 / 2 / of_nat b"
    using b by (simp only: divide_strict_right_mono of_nat_0_less_iff)
  then have "3 * ?x / 2 ^ 53 < 1 / (2 * of_nat b)" by (simp add: field_simps)
  with js_mul_div_error[OF b, of a m] have "\<bar>?y - ?x\<bar> < 1 / (2 * of_nat b)" by linarith
  then have "\<bar>(?y + 1 / 2) - (of_nat (N div (2 * b)) + of_nat (N mod (2 * b)) / (2 * of_nat b))\<bar>
               < 1 / (2 * of_nat b)"
    using grid by (simp add: algebra_simps)
  from floor_near_grid[OF b _ this] b
  have "\<lfloor>?y + 1 / 2\<rfloor> = int (N div (2 * b))
        \<or> (N mod (2 * b) = 0 \<and> \<lfloor>?y + 1 / 2\<rfloor> = int (N div (2 * b)) - 1)"
    by simp
  then show ?thesis
    unfolding int_minor_side ref exact_tie_def N_def Math_round_def by auto
qed

text \<open>
  Claim C9. The computation does not guarantee positive output dimensions: for the image
  of width 10000 and height 1 at \<open>maxSize = 512\<close>, both input dimensions are at least 1
  and the computed height is \<open>Math.round((1 / 10000) * 512) = 0\<close>.
\<close>

theorem onload_dimensions_zero_height:
  "(1::nat) \<le> 10000 \<and> (1::nat) \<le> 1 \<and> onload_dimensions 10000 1 512 = (512, 0)"
proof -
  have "Math_round (js_mul (js_div 1 10000) 512) = 0"
    by code_simp
  then show ?thesis
    by (simp add: onload_dimensions_def)
qed

text \<open>
  The image of 4000 by 2006 pixels at \<open>maxSize = 1000\<close>: the quotient
  \<^verbatim>\<open>2006 / 4000\<close> is rounded down, and the product with 1000 is the double just
  below 501.5.
\<close>

lemma js_product_4000_2006_1000:
  "js_div 2006 4000 = 4517110426252607 / 2 ^ 53"
  "js_mul (js_div 2006 4000) 1000 = 1003 / 2 - 1 / 2 ^ 44"
  by code_simp+

lemma minor_side_4000_2006_1000: "minor_side 2006 4000 1000 = 501"
proof -
  have "Math_round (js_mul (js_div 2006 4000) 1000) = 501" by code_simp
  then show ?thesis by (simp add: minor_side_def)
qed

lemma minor_side_4000_3000_512: "minor_side 3000 4000 512 = 384"
proof -
  have "Math_round (js_mul (js_div 3000 4000) 512) = 384" by code_simp
  then show ?thesis by (simp add: minor_side_def)
qed

text \<open>
  Claim C1, as stated, fails. For the image of 4000 by 2006 pixels at \<open>maxSize = 1000\<close>
  the exact scaled height is 501.5, which the reference definition rounds to 502. The code
  evaluates \<^verbatim>\<open>(2006 / 4000) * 1000\<close> in binary64: the quotient is rounded first, the
  product comes out just below 501.5, and \<^verbatim>\<open>Math.round\<close> answers 501.
\<close>

theorem onload_dimensions_reference_counterexample:
  "onload_dimensions 4000 2006 1000 = (1000, 501)
   \<and> spec_dimensions 4000 2006 1000 = (1000, 502)
   \<and> onload_dimensions 4000 2006 1000 \<noteq> spec_dimensions 4000 2006 1000"
proof -
  have "round_half_away (2006 * 1000 / 4000) = 502"
    by code_simp
  then show ?thesis
    by (simp add: onload_dimensions_minor minor_side_4000_2006_1000 spec_dimensions_def)
qed

text \<open>
  Claim C1, amended. For an image whose sides are both below \<open>2 ^ 25\<close> pixels, the
  computed dimensions equal the reference definition, except that where the exact scaled
  value of the shorter side lies exactly half way between two integers the computed
  shorter side may be one less than the reference; the longer side always agrees.
\<close>

theorem onload_dimensions_reference:
  assumes "width < 2 ^ 25" "height < 2 ^ 25"
  shows "onload_dimensions width height maxSize = spec_dimensions width height maxSize
       \<or> (width > height \<and> width > maxSize \<and> exact_tie height width maxSize
          \<and> fst (onload_dimensions width height maxSize) = fst (spec_dimensions width height maxSize)
          \<and> snd (onload_dimensions width height maxSize) + 1 = snd (spec_dimensions width height maxSize))
       \<or> (height \<ge> width \<and> height > maxSize \<and> exact_tie width height maxSize
          \<and> fst (onload_dimensions width height maxSize) + 1 = fst (spec_dimensions width height maxSize)
          \<and> snd (onload_dimensions width height maxSize) = snd (spec_dimensions width height maxSize))"
proof -
  have prod: "6 * a * m < 2 ^ 53" if "a < 2 ^ 25" "m < 2 ^ 25" for a m :: nat
  proof -
    have "a * m \<le> 2 ^ 25 * 2 ^ 25" using that by (intro mult_mono) auto
    then show ?thesis by simp
  qed
  have nonneg: "0 \<le> round_half_away (of_nat a * of_nat m / of_nat b)" for a b m :: nat
    by (simp add: round_half_away_def)
  have conv: "int k = round_half_away x \<Longrightarrow> k = nat (round_half_away x)" for k x
    by simp
  have conv1: "int k + 1 = round_half_away x \<Longrightarrow> k + 1 = nat (round_half_away x)" for k x
    by (metis nat_int of_nat_1 of_nat_add)
  consider (land) "width > height" "width > maxSize"
    | (port) "height \<ge> width" "height > maxSize"
    | (keep) "width > height" "\<not> width > maxSize" | (keep') "height \<ge> width" "\<not> height > maxSize"
    by linarith
  then show ?thesis
  proof cases
    case land
    then have "0 < width" "maxSize < 2 ^ 25" using assms by auto
    with minor_side_reference[OF \<open>0 < width\<close> prod[OF assms(2) \<open>maxSize < 2 ^ 25\<close>]] land
    show ?thesis
      by (auto simp: onload_dimensions_minor spec_dimensions_def dest: conv conv1)
  next
    case port
    then have "0 < height" "maxSize < 2 ^ 25" using assms by auto
    with minor_side_reference[OF \<open>0 < height\<close> prod[OF assms(1) \<open>maxSize < 2 ^ 25\<close>]] port
    show ?thesis
      by (auto simp: onload_dimensions_minor spec_dimensions_def dest: conv conv1)
  next
    case keep
    then show ?thesis by (simp add: onload_dimensions_minor spec_dimensions_def)
  next
    case keep'
    then show ?thesis by (simp add: onload_dimensions_minor spec_dimensions_def)
  qed
qed

text \<open>
  The amended claim C1 at the image of 4000 by 3000 pixels and \<open>maxSize = 512\<close>: the
  scaled height 384 is no tie, and the code computes the reference's 512 by 384.
\<close>

theorem onload_dimensions_reference_witness:
  "(4000::nat) < 2 ^ 25 \<and> (3000::nat) < 2 ^ 25
   \<and> onload_dimensions 4000 3000 512 = spec_dimensions 4000 3000 512
   \<and> spec_dimensions 4000 3000 512 = (512, 384)"
proof -
  have "\<not> exact_tie 3000 4000 512" by (simp add: exact_tie_def)
  moreover have "round_half_away (3000 * 512 / 4000) = 384"
    by code_simp
  then have "spec_dimensions 4000 3000 512 = (512, 384)"
    by (simp add: spec_dimensions_def)
  ultimately show ?thesis
    using onload_dimensions_reference[of 4000 3000 512] by simp
qed

text \<open>
  The computed dimensions of an image whose width and height are unsigned 32-bit
  integers: if the larger side exceeds \<open>maxSize\<close>, the larger computed dimension is
  exactly \<open>maxSize\<close>, it is the dimension of the longer side, and the other one is within
  one pixel of the exact proportional value; otherwise the dimensions are unchanged.
\<close>

lemma onload_dimensions_bounded:
  assumes "width < 2 ^ 32" "height < 2 ^ 32"
  shows "(max width height > maxSize \<longrightarrow>
            max (fst (onload_dimensions width height maxSize))
                (snd (onload_dimensions width height maxSize)) = maxSize
          \<and> (if width > height
             then fst (onload_dimensions width height maxSize) = maxSize
                \<and> \<bar>of_nat (snd (onload_dimensions width height maxSize))
                    - of_nat height * of_nat maxSize / of_nat width :: rat\<bar> \<le> 1
             else snd (onload_dimensions width height maxSize) = maxSize
                \<and> \<bar>of_nat (fst (onload_dimensions width height maxSize))
                    - of_nat width * of_nat maxSize / of_nat height :: rat\<bar> \<le> 1))
       \<and> (max width height \<le> maxSize \<longrightarrow>
            onload_dimensions width height maxSize = (width, height))"
proof -
  have big: "m < 2 ^ 53" if "m < (2::nat) ^ 32" for m
    using that by (rule less_le_trans) simp
  show ?thesis
  proof (cases "width > height")
    case True
    show ?thesis
    proof (cases "width > maxSize")
      case w: True
      then have m: "maxSize < 2 ^ 32" and pos: "0 < width" and le: "height \<le> width"
        using assms True by auto
      from minor_side_le[OF le pos big[OF m]] minor_side_within_one[OF le pos m] True w
      show ?thesis by (simp add: onload_dimensions_minor max_def)
    next
      case False
      with True show ?thesis by (simp add: onload_dimensions_minor)
    qed
  next
    case False
    show ?thesis
    proof (cases "height > maxSize")
      case h: True
      then have m: "maxSize < 2 ^ 32" and pos: "0 < height" and le: "width \<le> height"
        using assms False by auto
      from minor_side_le[OF le pos big[OF m]] minor_side_within_one[OF le pos m] False h
      show ?thesis by (simp add: onload_dimensions_minor max_def)
    next
      case nh: False
      with False show ?thesis by (simp add: onload_dimensions_minor)
    qed
  qed
qed




lemma onload_dimensions_4000_3000_512: "onload_dimensions 4000 3000 512 = (512, 384)"
  by (simp add: onload_dimensions_minor minor_side_4000_3000_512)

lemma onload_dimensions_300_200_512: "onload_dimensions 300 200 512 = (300, 200)"
  by (simp add: onload_dimensions_minor)

section \<open>Properties of the string operations\<close>

lemma endsWith_suffix: "endsWith s searchString \<longleftrightarrow> suffix searchString s"
proof
  assume "endsWith s searchString"
  then have "s = take (length s - length searchString) s @ searchString"
    by (metis append_take_drop_id endsWith_def)
  then show "suffix searchString s" by (rule suffixI)
next
  assume "suffix searchString s"
  then obtain p where "s = p @ searchString" by (rule suffixE)
  then show "endsWith s searchString" by (simp add: endsWith_def)
qed

text \<open>
  Upper-case and lower-case folding identify the same characters, so the regular
  expression and \<^verbatim>\<open>toLowerCase\<close> followed by \<^verbatim>\<open>endsWith\<close> recognise the same
  names, and the replacement is the one of \<open>spec_jpg_name\<close>.
\<close>

lemma lower_canonicalize: "lower_char (canonicalize c) = lower_char c"
  by (simp add: lower_char_def canonicalize_def ascii_upper_def ascii_lower_def)

lemma canonicalize_lower: "canonicalize (lower_char c) = canonicalize c"
  by (simp add: lower_char_def canonicalize_def ascii_upper_def ascii_lower_def)

lemma canonicalize_eq_iff: "canonicalize a = canonicalize b \<longleftrightarrow> lower_char a = lower_char b"
  by (metis lower_canonicalize canonicalize_lower)

lemma map_canonicalize_eq_iff:
  "map canonicalize a = map canonicalize b \<longleftrightarrow> same_ignoring_case a b"
  unfolding same_ignoring_case_def
proof (induction a arbitrary: b)
  case Nil
  then show ?case by simp
next
  case (Cons x xs)
  then show ?case by (cases b) (simp_all add: canonicalize_eq_iff)
qed

lemma lower_heic: "map lower_char ''.heic'' = ''.heic''"
  by (simp add: lower_char_def ascii_upper_def ascii_lower_def)

lemma lower_heif: "map lower_char ''.heif'' = ''.heif''"
  by (simp add: lower_char_def ascii_upper_def ascii_lower_def)

lemma lower_image_heic: "map lower_char ''image/heic'' = ''image/heic''"
  by (simp add: lower_char_def ascii_upper_def ascii_lower_def)

lemma lower_image_heif: "map lower_char ''image/heif'' = ''image/heif''"
  by (simp add: lower_char_def ascii_upper_def ascii_lower_def)

lemma endsWith_toLowerCase:
  assumes "map lower_char ext = ext"
  shows "endsWith (toLowerCase s) ext \<longleftrightarrow> ends_with_ignoring_case s ext"
  using assms
  by (simp add: endsWith_def toLowerCase_def ends_with_ignoring_case_def same_ignoring_case_def
      drop_map)

lemma toLowerCase_eq:
  assumes "map lower_char t = t"
  shows "toLowerCase s = t \<longleftrightarrow> same_ignoring_case s t"
  using assms by (simp add: toLowerCase_def same_ignoring_case_def)

lemma ext_match_at_iff:
  "ext_match_at s i \<longleftrightarrow>
     i + 5 = length s \<and>
     (same_ignoring_case (drop i s) ''.heic'' \<or> same_ignoring_case (drop i s) ''.heif'')"
  unfolding ext_match_at_def Let_def map_canonicalize_eq_iff by auto

lemma ext_match_at_end:
  "ext_match_at s i \<longleftrightarrow>
     i + 5 = length s \<and>
     (ends_with_ignoring_case s ''.heic'' \<or> ends_with_ignoring_case s ''.heif'')"
proof (cases "i + 5 = length s")
  case True
  then have "length s - 5 = i" "5 \<le> length s" by simp_all
  then show ?thesis
    by (simp add: ext_match_at_iff ends_with_ignoring_case_def True eval_nat_numeral)
next
  case False
  then show ?thesis by (simp add: ext_match_at_iff)
qed

lemma replace_ext_spec: "replace_ext s = spec_jpg_name s"
proof (cases "ends_with_ignoring_case s ''.heic'' \<or> ends_with_ignoring_case s ''.heif''")
  case True
  then have len: "5 \<le> length s" by (auto simp: ends_with_ignoring_case_def)
  have "find (ext_match_at s) [0..<Suc (length s)] = Some (length s - 5)"
    unfolding find_Some_iff using True len
    by (intro exI[of _ "length s - 5"]) (auto simp: ext_match_at_end nth_upt simp del: upt_Suc)
  then show ?thesis using True len by (simp add: replace_ext_def spec_jpg_name_def)
next
  case False
  then have "find (ext_match_at s) [0..<Suc (length s)] = None"
    unfolding find_None_iff by (simp add: ext_match_at_end)
  then show ?thesis using False by (simp add: replace_ext_def spec_jpg_name_def)
qed

section \<open>Properties of \<^verbatim>\<open>isHeicFile\<close>\<close>

lemma isHeicFile_FileRef:
  "isHeicFile st (FileRef r) \<longleftrightarrow>
     ends_with_ignoring_case (name (files st r)) ''.heic'' \<or>
     ends_with_ignoring_case (name (files st r)) ''.heif'' \<or>
     same_ignoring_case (type (files st r)) ''image/heic'' \<or>
     same_ignoring_case (type (files st r)) ''image/heif''"
  by (simp only: isHeicFile_def Let_def js_input.case
      endsWith_toLowerCase[OF lower_heic] endsWith_toLowerCase[OF lower_heif]
      toLowerCase_eq[OF lower_image_heic] toLowerCase_eq[OF lower_image_heif])

text \<open>
  Claim C3. For a \<^verbatim>\<open>File\<close>, \<^verbatim>\<open>isHeicFile\<close> answers true exactly when the name
  ends in \<open>.heic\<close> or \<open>.heif\<close> up to letter case or the media type equals
  \<open>image/heic\<close> or \<open>image/heif\<close> up to letter case; for a string and for any other
  value it answers false. In particular it answers true for the names \<open>photo.HEIC\<close> and
  \<open>photo.heif\<close> and for every file of media type \<open>image/heic\<close>, and false for the name
  \<open>photo.jpg\<close> with a media type that is not a legacy one.
\<close>

theorem isHeicFile_spec:
  "(isHeicFile st (FileRef r) \<longleftrightarrow>
      ends_with_ignoring_case (name (files st r)) ''.heic'' \<or>
      ends_with_ignoring_case (name (files st r)) ''.heif'' \<or>
      same_ignoring_case (type (files st r)) ''image/heic'' \<or>
      same_ignoring_case (type (files st r)) ''image/heif'')
   \<and> \<not> isHeicFile st (StringIn s)
   \<and> \<not> isHeicFile st OtherIn
   \<and> (name (files st r) = ''photo.HEIC'' \<longrightarrow> isHeicFile st (FileRef r))
   \<and> (name (files st r) = ''photo.heif'' \<longrightarrow> isHeicFile st (FileRef r))
   \<and> (type (files st r) = ''image/heic'' \<longrightarrow> isHeicFile st (FileRef r))
   \<and> (name (files st r) = ''photo.jpg''
        \<and> \<not> same_ignoring_case (type (files st r)) ''image/heic''
        \<and> \<not> same_ignoring_case (type (files st r)) ''image/heif''
        \<longrightarrow> \<not> isHeicFile st (FileRef r))"
proof -
  have a: "ends_with_ignoring_case ''photo.HEIC'' ''.heic''"
    and b: "ends_with_ignoring_case ''photo.heif'' ''.heif''"
    and c: "\<not> ends_with_ignoring_case ''photo.jpg'' ''.heic''"
    and d: "\<not> ends_with_ignoring_case ''photo.jpg'' ''.heif''"
    by (simp_all add: ends_with_ignoring_case_def same_ignoring_case_def
        lower_char_def ascii_upper_def ascii_lower_def)
  have e: "same_ignoring_case ''image/heic'' ''image/heic''"
    by (simp add: same_ignoring_case_def)
  show ?thesis
    unfolding isHeicFile_FileRef using a b c d e
    by (auto simp: isHeicFile_def)
qed

text \<open>Claim C3 at four files: three that are detected and one that is not.\<close>

theorem isHeicFile_spec_witness:
  "isHeicFile (example_state ''photo.HEIC'' '''') (FileRef 0)
   \<and> isHeicFile (example_state ''photo.heif'' '''') (FileRef 0)
   \<and> isHeicFile (example_state ''IMG_0001'' ''image/heic'') (FileRef 0)
   \<and> \<not> isHeicFile (example_state ''photo.jpg'' ''image/jpeg'') (FileRef 0)"
proof -
  have sel: "name (files (example_state a b) 0) = a" "type (files (example_state a b) 0) = b"
    for a b by (simp_all add: example_state_def)
  have t: "\<not> same_ignoring_case ''image/jpeg'' ''image/heic''"
    "\<not> same_ignoring_case ''image/jpeg'' ''image/heif''"
    by (simp_all add: same_ignoring_case_def lower_char_def ascii_upper_def ascii_lower_def)
  note examples = isHeicFile_spec[THEN conjunct2, THEN conjunct2, THEN conjunct2]
  have "isHeicFile (example_state ''photo.HEIC'' '''') (FileRef 0)"
    using examples[of "example_state ''photo.HEIC'' ''''" 0, THEN conjunct1]
    by (simp add: sel)
  moreover have "isHeicFile (example_state ''photo.heif'' '''') (FileRef 0)"
    using examples[of "example_state ''photo.heif'' ''''" 0, THEN conjunct2, THEN conjunct1]
    by (simp add: sel)
  moreover have "isHeicFile (example_state ''IMG_0001'' ''image/heic'') (FileRef 0)"
    using examples[of "example_state ''IMG_0001'' ''image/heic''" 0,
        THEN conjunct2, THEN conjunct2, THEN conjunct1]
    by (simp add: sel)
  moreover have "\<not> isHeicFile (example_state ''photo.jpg'' ''image/jpeg'') (FileRef 0)"
    using examples[of "example_state ''photo.jpg'' ''image/jpeg''" 0,
        THEN conjunct2, THEN conjunct2, THEN conjunct2] t
    by (simp add: sel)
  ultimately show ?thesis by simp
qed

section \<open>Properties of \<^verbatim>\<open>convertHeicToJpeg\<close>\<close>

text \<open>
  A successful call went through \<^verbatim>\<open>new File\<close>: the result is the next free reference,
  and the store differs from the old one in that object only.
\<close>

lemma catch_convert_not_Inr: "catch_convert error st \<noteq> (Inr r, st')"
  by (simp add: catch_convert_def Let_def split: sum.splits)

lemma try_convert_success:
  assumes "try_convert env st heicFile heicConverter = (Inr jpegFile, st')"
  shows "jpegFile = next_ref st"
    and "\<exists>blob. st' = st\<lparr>files := (files st)(next_ref st :=
             \<lparr>name = replace_ext (name (files st heicFile)), type = ''image/jpeg'',
              lastModified = Date_now env, parts = [blob]\<rparr>),
           next_ref := Suc (next_ref st)\<rparr>"
  using assms
  by (auto simp: try_convert_def Let_def new_File_def
      split: option.splits sum.splits if_splits)

lemma convertHeicToJpeg_success:
  assumes "convertHeicToJpeg env st heicFile = (Inr jpegFile, st')"
  shows "jpegFile = next_ref st"
    and "\<exists>blob. st' = st\<lparr>files := (files st)(next_ref st :=
             \<lparr>name = replace_ext (name (files st heicFile)), type = ''image/jpeg'',
              lastModified = Date_now env, parts = [blob]\<rparr>),
           next_ref := Suc (next_ref st)\<rparr>"
proof -
  from assms obtain heicConverter
    where "try_convert env st heicFile heicConverter = (Inr jpegFile, st')"
    by (auto simp: convertHeicToJpeg_def catch_convert_not_Inr
        split: if_splits sum.splits prod.splits)
  then show "jpegFile = next_ref st"
    and "\<exists>blob. st' = st\<lparr>files := (files st)(next_ref st :=
             \<lparr>name = replace_ext (name (files st heicFile)), type = ''image/jpeg'',
              lastModified = Date_now env, parts = [blob]\<rparr>),
           next_ref := Suc (next_ref st)\<rparr>"
    by (rule try_convert_success)+
qed

lemma example_convert:
  "convertHeicToJpeg (example_env (Some example_decoder) None) (example_state fileName fileType) 0
    = (Inr 1, (example_state fileName fileType)\<lparr>files := (files (example_state fileName fileType))(1 :=
             \<lparr>name = replace_ext fileName, type = ''image/jpeg'',
              lastModified = 1700000000000, parts = [BlobVal [255, 216, 255] ''image/jpeg'']\<rparr>),
           next_ref := 2\<rparr>)"
  by (simp add: convertHeicToJpeg_def heic2any_not_loaded_def heicConverter_of_def
      try_convert_def example_env_def example_state_def example_decoder_def new_File_def)

text \<open>
  Claim C6. When \<^verbatim>\<open>convertHeicToJpeg\<close> succeeds on an allocated file, the file it
  returns is named as the original with a trailing \<open>.heic\<close> or \<open>.heif\<close> (in any letter
  case) replaced by \<open>.jpg\<close>, has the media type \<open>image/jpeg\<close> and the current time as
  its modification time; in particular \<open>img.heic\<close> becomes \<open>img.jpg\<close>. The returned
  file is a new object and the input file is left as it was.
\<close>

theorem convertHeicToJpeg_result:
  assumes "convertHeicToJpeg env st heicFile = (Inr jpegFile, st')"
    and "heicFile < next_ref st"
  shows "name (files st' jpegFile) = spec_jpg_name (name (files st heicFile))
       \<and> type (files st' jpegFile) = ''image/jpeg''
       \<and> lastModified (files st' jpegFile) = Date_now env
       \<and> (name (files st heicFile) = ''img.heic'' \<longrightarrow> name (files st' jpegFile) = ''img.jpg'')
       \<and> jpegFile \<noteq> heicFile
       \<and> files st' heicFile = files st heicFile"
proof -
  have "spec_jpg_name ''img.heic'' = ''img.jpg''"
    by (simp add: spec_jpg_name_def ends_with_ignoring_case_def same_ignoring_case_def
        lower_char_def ascii_upper_def ascii_lower_def)
  with convertHeicToJpeg_success[OF assms(1)] assms(2) show ?thesis
    by (auto simp: replace_ext_spec)
qed

text \<open>Claim C6 at the file \<open>img.heic\<close> and a decoder that resolves to one blob.\<close>

theorem convertHeicToJpeg_result_witness:
  "name (files (snd (convertHeicToJpeg (example_env (Some example_decoder) None)
                      (example_state ''img.heic'' ''image/heic'') 0)) 1) = ''img.jpg''
   \<and> type (files (snd (convertHeicToJpeg (example_env (Some example_decoder) None)
                      (example_state ''img.heic'' ''image/heic'') 0)) 1) = ''image/jpeg''
   \<and> files (snd (convertHeicToJpeg (example_env (Some example_decoder) None)
                      (example_state ''img.heic'' ''image/heic'') 0)) 0
      = files (example_state ''img.heic'' ''image/heic'') 0"
proof -
  let ?env = "example_env (Some example_decoder) None"
  let ?st = "example_state ''img.heic'' ''image/heic''"
  obtain st' where conv: "convertHeicToJpeg ?env ?st 0 = (Inr 1, st')"
    by (simp add: example_convert)
  have alloc: "(0::nat) < next_ref ?st" by (simp add: example_state_def)
  have nm: "name (files ?st 0) = ''img.heic''" by (simp add: example_state_def)
  note result = convertHeicToJpeg_result[OF conv alloc]
  from result nm have "name (files st' 1) = ''img.jpg''" by blast
  moreover from result have "type (files st' 1) = ''image/jpeg''" by blast
  moreover from result have "files st' 0 = files ?st 0" by blast
  ultimately show ?thesis by (simp add: conv)
qed

text \<open>
  Claim C10. When a file is detected as a legacy container although its name ends
  neither in \<open>.heic\<close> nor in \<open>.heif\<close> (so by its media type alone), the file that
  \<^verbatim>\<open>convertHeicToJpeg\<close> returns keeps the original name unchanged, and its media type
  is \<open>image/jpeg\<close>.
\<close>

theorem convertHeicToJpeg_keeps_other_names:
  assumes "convertHeicToJpeg env st heicFile = (Inr jpegFile, st')"
    and "isHeicFile st (FileRef heicFile)"
    and "\<not> ends_with_ignoring_case (name (files st heicFile)) ''.heic''"
    and "\<not> ends_with_ignoring_case (name (files st heicFile)) ''.heif''"
  shows "name (files st' jpegFile) = name (files st heicFile)
       \<and> type (files st' jpegFile) = ''image/jpeg''"
  using convertHeicToJpeg_success[OF assms(1)] assms(3,4)
  by (auto simp: replace_ext_spec spec_jpg_name_def)

text \<open>Claim C10 at the file \<open>IMG_0001\<close> of media type \<open>image/heic\<close>.\<close>

theorem convertHeicToJpeg_keeps_other_names_witness:
  "isHeicFile (example_state ''IMG_0001'' ''image/heic'') (FileRef 0)
   \<and> \<not> ends_with_ignoring_case ''IMG_0001'' ''.heic''
   \<and> \<not> ends_with_ignoring_case ''IMG_0001'' ''.heif''
   \<and> name (files (snd (convertHeicToJpeg (example_env (Some example_decoder) None)
                      (example_state ''IMG_0001'' ''image/heic'') 0)) 1) = ''IMG_0001''
   \<and> type (files (snd (convertHeicToJpeg (example_env (Some example_decoder) None)
                      (example_state ''IMG_0001'' ''image/heic'') 0)) 1) = ''image/jpeg''"
proof -
  let ?env = "example_env (Some example_decoder) None"
  let ?st = "example_state ''IMG_0001'' ''image/heic''"
  have sel: "name (files ?st 0) = ''IMG_0001''" "type (files ?st 0) = ''image/heic''"
    by (simp_all add: example_state_def)
  obtain st' where conv: "convertHeicToJpeg ?env ?st 0 = (Inr 1, st')"
    by (simp add: example_convert)
  have no_ext: "\<not> ends_with_ignoring_case ''IMG_0001'' ''.heic''"
    "\<not> ends_with_ignoring_case ''IMG_0001'' ''.heif''"
    by (simp_all add: ends_with_ignoring_case_def same_ignoring_case_def
        lower_char_def ascii_upper_def ascii_lower_def)
  have "same_ignoring_case ''image/heic'' ''image/heic''"
    by (simp add: same_ignoring_case_def)
  then have detected: "isHeicFile ?st (FileRef 0)"
    by (simp add: isHeicFile_FileRef sel)
  from convertHeicToJpeg_keeps_other_names[OF conv detected] no_ext sel
  have "name (files st' 1) = ''IMG_0001'' \<and> type (files st' 1) = ''image/jpeg''"
    by simp
  with detected no_ext show ?thesis by (simp add: conv)
qed

text \<open>
  Failures of the decoder. A thrown error object or string is wrapped, and so is the
  absence of a usable result, an empty array included.
\<close>

lemma convertHeicToJpeg_wraps_thrown:
  assumes "heic2any env = Some conv"
    and "conv \<lparr>opt_blob = files st heicFile, opt_toType = ''image/jpeg'', opt_quality = 1\<rparr> = Inl cause"
    and "message_or_self cause = Inr txt"
  shows "convertHeicToJpeg env st heicFile
     = (Inl (new_Error (''Failed to convert HEIC file: '' @ txt)), emit (ConsoleError cause) st)"
  using assms
  by (simp add: convertHeicToJpeg_def heic2any_not_loaded_def heicConverter_of_def
      try_convert_def catch_convert_def)

lemma convertHeicToJpeg_wraps_no_result:
  assumes "heic2any env = Some conv"
    and "conv \<lparr>opt_blob = files st heicFile, opt_toType = ''image/jpeg'', opt_quality = 1\<rparr> = Inr v"
    and "v = Undefined \<or> v = Null \<or> v = ArrayVal [] \<or> v = ArrayVal (Undefined # rest)
         \<or> v = ArrayVal (Null # rest)"
  shows "convertHeicToJpeg env st heicFile
     = (Inl (new_Error ''Failed to convert HEIC file: Conversion returned no result''),
        emit (ConsoleError (new_Error ''Conversion returned no result'')) st)"
  using assms
  by (auto simp: convertHeicToJpeg_def heic2any_not_loaded_def heicConverter_of_def
      try_convert_def catch_convert_def new_Error_def)

text \<open>
  Claim C7 asks that every failure of the decoder surfaces as the wrapped error
  \<open>Failed to convert HEIC file: ...\<close>. The code misses one case: when the decoder rejects
  with \<^verbatim>\<open>undefined\<close>, the \<^verbatim>\<open>catch\<close> block reads \<^verbatim>\<open>error.message\<close> of
  \<^verbatim>\<open>undefined\<close>, and the call rejects with that \<^verbatim>\<open>TypeError\<close> instead of the
  wrapped error.
\<close>

theorem convertHeicToJpeg_rejection_undefined:
  "convertHeicToJpeg (example_env (Some (\<lambda>args. Inl ThrownUndefined)) None)
     (example_state ''photo.heic'' ''image/heic'') 0
   = (Inl (TypeError ''Cannot read properties of undefined (reading message)''),
      emit (ConsoleError ThrownUndefined) (example_state ''photo.heic'' ''image/heic''))"
  by (simp add: convertHeicToJpeg_def heic2any_not_loaded_def heicConverter_of_def
      try_convert_def catch_convert_def example_env_def TypeError_def new_Error_def)

section \<open>Properties of \<^verbatim>\<open>resizeAndConvertToJpeg\<close>\<close>

text \<open>
  Where a global \<^verbatim>\<open>window\<close> exists and \<^verbatim>\<open>heic2any\<close> is defined neither as a
  global nor on it, a detected file is rejected with the error of line 28.
\<close>

lemma resizeAndConvertToJpeg_not_loaded:
  assumes "isHeicFile st (FileRef r)" "heic2any env = None" "window env = Some w"
    "window_heic2any w = None"
  shows "resizeAndConvertToJpeg env st (FileRef r) maxSize quality
     = (Inl (new_Error ''heic2any library is not loaded. Please include the library script.''), st)"
  using assms
  by (simp add: resizeAndConvertToJpeg_def convertHeicToJpeg_def heic2any_not_loaded_def)

text \<open>
  Claim C4 asks that a detected file is rejected with the error
  \<open>heic2any library is not loaded\<close> whenever the decoder is unavailable. The code misses
  the environment that has no global \<^verbatim>\<open>window\<close>: the guard of line 27 is then false,
  line 31 reads \<^verbatim>\<open>window.heic2any\<close>, and the call rejects with a
  \<^verbatim>\<open>ReferenceError\<close>.
\<close>

theorem resizeAndConvertToJpeg_no_window:
  "isHeicFile (example_state ''photo.heic'' ''image/heic'') (FileRef 0)
   \<and> heic2any (example_env None None) = None
   \<and> window (example_env None None) = None
   \<and> resizeAndConvertToJpeg (example_env None None) (example_state ''photo.heic'' ''image/heic'')
        (FileRef 0) 512 (9 / 10)
      = (Inl (ReferenceError ''window is not defined''), example_state ''photo.heic'' ''image/heic'')
   \<and> ReferenceError ''window is not defined''
      \<noteq> new_Error ''heic2any library is not loaded. Please include the library script.''"
proof -
  let ?st = "example_state ''photo.heic'' ''image/heic''"
  have sel: "name (files ?st 0) = ''photo.heic''" "type (files ?st 0) = ''image/heic''"
    by (simp_all add: example_state_def)
  have "same_ignoring_case ''image/heic'' ''image/heic''"
    by (simp add: same_ignoring_case_def)
  then have detected: "isHeicFile ?st (FileRef 0)"
    by (simp add: isHeicFile_FileRef sel)
  then show ?thesis
    by (simp add: resizeAndConvertToJpeg_def convertHeicToJpeg_def heic2any_not_loaded_def
        heicConverter_of_def example_env_def ReferenceError_def new_Error_def)
qed

text \<open>
  A run on a string is \<^verbatim>\<open>img.src = input\<close> and what follows from it. When the image
  loads, the handler draws at the computed dimensions and resolves to the encoding of the
  canvas. Conversely, a call that resolves has decoded a source, drawn it at the dimensions
  computed from its width and height, and encoded: these are the last three events.
\<close>

lemma resizeAndConvertToJpeg_StringIn:
  "resizeAndConvertToJpeg env st (StringIn s) maxSize quality = load_image env st s maxSize quality"
  by (simp add: resizeAndConvertToJpeg_def)

lemma load_image_onload:
  assumes "Image_load env src = Some (w, h)" "onload_dimensions w h maxSize = (w', h')"
  shows "load_image env st src maxSize quality
     = (Inr (toDataURL env src w' h' quality),
        emit (EncodeJpeg quality) (emit (DrawImage w' h') (emit (DecodeImage src) st)))"
  using assms by (simp add: load_image_def)

lemma load_image_resolved:
  assumes "load_image env st src maxSize quality = (Inr out, st')"
  shows "\<exists>w h. Image_load env src = Some (w, h)
           \<and> out = toDataURL env src (fst (onload_dimensions w h maxSize))
                   (snd (onload_dimensions w h maxSize)) quality
           \<and> events st' = events st @ [DecodeImage src,
                   DrawImage (fst (onload_dimensions w h maxSize))
                     (snd (onload_dimensions w h maxSize)),
                   EncodeJpeg quality]"
  using assms
  by (auto simp: load_image_def emit_def split: option.splits prod.splits)

lemma resizeAndConvertToJpeg_resolved:
  assumes "resizeAndConvertToJpeg env st input maxSize quality = (Inr out, st')"
  shows "\<exists>st1 src. load_image env st1 src maxSize quality = (Inr out, st')"
  using assms
  by (auto simp: resizeAndConvertToJpeg_def
      split: js_input.splits if_splits prod.splits sum.splits option.splits)

lemma last_three:
  assumes "pre @ [a, b, c] = pre' @ [a', b', c']"
  shows "a = a'" "b = b'" "c = c'"
  using arg_cong[OF assms, of rev] by simp_all

text \<open>Runs in the example environment.\<close>

lemma example_canvas_env_unsigned:
  "\<forall>src w h. Image_load example_canvas_env src = Some (w, h) \<longrightarrow> w < 2 ^ 32 \<and> h < 2 ^ 32"
  by (auto simp: example_canvas_env_def split: if_splits)

lemma example_run_photo:
  "resizeAndConvertToJpeg example_canvas_env st (StringIn ''photo.jpg'') 512 quality
     = (Inr ''data:image/jpeg;512x384'',
        emit (EncodeJpeg quality) (emit (DrawImage 512 384) (emit (DecodeImage ''photo.jpg'') st)))"
  by (simp add: resizeAndConvertToJpeg_StringIn load_image_def example_canvas_env_def
      onload_dimensions_4000_3000_512)

lemma example_run_small:
  "resizeAndConvertToJpeg example_canvas_env st (StringIn ''small.png'') 512 quality
     = (Inr ''data:image/jpeg;other'',
        emit (EncodeJpeg quality) (emit (DrawImage 300 200) (emit (DecodeImage ''small.png'') st)))"
  by (simp add: resizeAndConvertToJpeg_StringIn load_image_def example_canvas_env_def
      onload_dimensions_300_200_512)


text \<open>
  A run on a file that is not a legacy container: the image of 4000 by 3000 pixels is
  drawn at 512 by 384 for \<open>maxSize = 512\<close>.
\<close>

lemma resizeAndConvertToJpeg_plain_file:
  assumes "\<not> isHeicFile st (FileRef r)"
    and "readAsDataURL env (files st r) = Some url"
    and "Image_load env url = Some (4000, 3000)"
  shows "resizeAndConvertToJpeg env st (FileRef r) 512 quality
     = (Inr (toDataURL env url 512 384 quality),
        emit (EncodeJpeg quality) (emit (DrawImage 512 384)
          (emit (DecodeImage url) (emit (ReadFile r) st))))"
proof -
  have "onload_dimensions 4000 3000 512 = (512, 384)"
    by (simp add: onload_dimensions_minor minor_side_4000_3000_512)
  from load_image_onload[OF assms(3) this] assms(1,2) show ?thesis
    by (simp add: resizeAndConvertToJpeg_def)
qed

text \<open>
  Claim C2. In an environment whose images have unsigned 32-bit widths and heights,
  every call of \<^verbatim>\<open>resizeAndConvertToJpeg\<close> that resolves has decoded an image of
  some \<open>w\<close> by \<open>h\<close> pixels, drawn it on a canvas of \<open>W\<close> by \<open>H\<close> pixels, and resolved
  to the encoding of that canvas. If the larger of \<open>w\<close> and \<open>h\<close> exceeds \<open>maxSize\<close>,
  the larger of \<open>W\<close> and \<open>H\<close> is exactly \<open>maxSize\<close>, it belongs to the longer side of
  the image, and the other one is within one pixel of the exact proportional value. If it
  does not, the canvas has the size of the image.
\<close>

theorem resizeAndConvertToJpeg_output_bounded:
  assumes unsigned: "\<forall>src w h. Image_load env src = Some (w, h) \<longrightarrow> w < 2 ^ 32 \<and> h < 2 ^ 32"
    and run: "resizeAndConvertToJpeg env st input maxSize quality = (Inr out, st')"
  shows "\<exists>pre src w h W H.
           events st' = pre @ [DecodeImage src, DrawImage W H, EncodeJpeg quality]
         \<and> Image_load env src = Some (w, h)
         \<and> out = toDataURL env src W H quality
         \<and> (maxSize < max w h \<longrightarrow>
               max W H = maxSize
             \<and> (if h < w
                then W = maxSize \<and> \<bar>of_nat H - of_nat h * of_nat maxSize / of_nat w :: rat\<bar> \<le> 1
                else H = maxSize \<and> \<bar>of_nat W - of_nat w * of_nat maxSize / of_nat h :: rat\<bar> \<le> 1))
         \<and> (max w h \<le> maxSize \<longrightarrow> W = w \<and> H = h)"
proof -
  from resizeAndConvertToJpeg_resolved[OF run] obtain st1 src
    where "load_image env st1 src maxSize quality = (Inr out, st')" by blast
  from load_image_resolved[OF this] obtain w h
    where img: "Image_load env src = Some (w, h)"
      and out: "out = toDataURL env src (fst (onload_dimensions w h maxSize))
                   (snd (onload_dimensions w h maxSize)) quality"
      and ev: "events st' = events st1 @ [DecodeImage src,
                   DrawImage (fst (onload_dimensions w h maxSize))
                     (snd (onload_dimensions w h maxSize)),
                   EncodeJpeg quality]"
    by blast
  from unsigned img have b: "w < 2 ^ 32" "h < 2 ^ 32" by blast+
  note dims = onload_dimensions_bounded[OF b, of maxSize]
  show ?thesis
    apply (rule exI[of _ "events st1"], rule exI[of _ src], rule exI[of _ w], rule exI[of _ h])
    apply (rule exI[of _ "fst (onload_dimensions w h maxSize)"])
    apply (rule exI[of _ "snd (onload_dimensions w h maxSize)"])
    using img out ev dims by auto
qed

text \<open>
  Claim C2 at the image of 4000 by 3000 pixels, which is drawn at 512 by 384, and at the
  image of 300 by 200 pixels, which is drawn at its own size.
\<close>

theorem resizeAndConvertToJpeg_output_bounded_witness:
  "(\<exists>pre src W H.
      events (snd (resizeAndConvertToJpeg example_canvas_env (example_state [] [])
                     (StringIn ''photo.jpg'') 512 (9 / 10)))
        = pre @ [DecodeImage src, DrawImage W H, EncodeJpeg (9 / 10)]
      \<and> Image_load example_canvas_env src = Some (4000, 3000)
      \<and> max W H = 512 \<and> W = 512
      \<and> \<bar>of_nat H - 3000 * 512 / 4000 :: rat\<bar> \<le> 1)
   \<and> (\<exists>pre src.
      events (snd (resizeAndConvertToJpeg example_canvas_env (example_state [] [])
                     (StringIn ''small.png'') 512 (9 / 10)))
        = pre @ [DecodeImage src, DrawImage 300 200, EncodeJpeg (9 / 10)]
      \<and> Image_load example_canvas_env src = Some (300, 200))"
proof -
  let ?st = "example_state [] []"
  let ?photo = "emit (EncodeJpeg (9 / 10)) (emit (DrawImage 512 384) (emit (DecodeImage ''photo.jpg'') ?st))"
  let ?small = "emit (EncodeJpeg (9 / 10)) (emit (DrawImage 300 200) (emit (DecodeImage ''small.png'') ?st))"
  have ev_photo: "events ?photo = [] @ [DecodeImage ''photo.jpg'', DrawImage 512 384, EncodeJpeg (9 / 10)]"
    and ev_small: "events ?small = [] @ [DecodeImage ''small.png'', DrawImage 300 200, EncodeJpeg (9 / 10)]"
    by (simp_all add: emit_def example_state_def)
  have img: "Image_load example_canvas_env ''photo.jpg'' = Some (4000, 3000)"
    "Image_load example_canvas_env ''small.png'' = Some (300, 200)"
    by (simp_all add: example_canvas_env_def)
  from resizeAndConvertToJpeg_output_bounded[OF example_canvas_env_unsigned
      example_run_photo[of ?st "9 / 10"]]
  obtain pre src w h W H
    where ev: "events ?photo = pre @ [DecodeImage src, DrawImage W H, EncodeJpeg (9 / 10)]"
      and ld: "Image_load example_canvas_env src = Some (w, h)"
      and big: "512 < max w h \<longrightarrow>
               max W H = 512
             \<and> (if h < w
                then W = 512 \<and> \<bar>of_nat H - of_nat h * of_nat 512 / of_nat w :: rat\<bar> \<le> 1
                else H = 512 \<and> \<bar>of_nat W - of_nat w * of_nat 512 / of_nat h :: rat\<bar> \<le> 1)"
    by blast
  from last_three(1)[OF ev[unfolded ev_photo]] have "src = ''photo.jpg''" by simp
  with ld img have wh: "w = 4000" "h = 3000" by simp_all
  have exceeds: "512 < max w h" using wh by simp
  from big exceeds have m: "max W H = 512" by blast
  from big exceeds wh have "W = 512 \<and> \<bar>of_nat H - of_nat h * of_nat 512 / of_nat w :: rat\<bar> \<le> 1"
    by (simp del: of_nat_numeral)
  then have "W = 512" and "\<bar>of_nat H - 3000 * 512 / 4000 :: rat\<bar> \<le> 1"
    using wh by simp_all
  with m ev ld wh have first: "\<exists>pre src W H.
      events ?photo = pre @ [DecodeImage src, DrawImage W H, EncodeJpeg (9 / 10)]
      \<and> Image_load example_canvas_env src = Some (4000, 3000)
      \<and> max W H = 512 \<and> W = 512
      \<and> \<bar>of_nat H - 3000 * 512 / 4000 :: rat\<bar> \<le> 1"
    by blast
  from resizeAndConvertToJpeg_output_bounded[OF example_canvas_env_unsigned
      example_run_small[of ?st "9 / 10"]]
  obtain pre2 src2 w2 h2 W2 H2
    where ev2: "events ?small = pre2 @ [DecodeImage src2, DrawImage W2 H2, EncodeJpeg (9 / 10)]"
      and ld2: "Image_load example_canvas_env src2 = Some (w2, h2)"
      and keep: "max w2 h2 \<le> 512 \<longrightarrow> W2 = w2 \<and> H2 = h2"
    by blast
  from last_three(1)[OF ev2[unfolded ev_small]] have "src2 = ''small.png''" by simp
  with ld2 img have wh2: "w2 = 300" "h2 = 200" by simp_all
  with keep have "W2 = 300" "H2 = 200" by simp_all
  with ev2 ld2 wh2 have second: "\<exists>pre src.
      events ?small = pre @ [DecodeImage src, DrawImage 300 200, EncodeJpeg (9 / 10)]
      \<and> Image_load example_canvas_env src = Some (300, 200)"
    by blast
  from first second show ?thesis
    by (simp only: example_run_photo example_run_small snd_conv)
qed




text \<open>
  Claim C8. An input that is neither a \<^verbatim>\<open>File\<close> nor a string is rejected with the
  error \<open>Invalid input: expected File or data URL string\<close>, and the state is left as it
  was: nothing is read, decoded, drawn or encoded.
\<close>

theorem resizeAndConvertToJpeg_invalid_input:
  "resizeAndConvertToJpeg env st OtherIn maxSize quality
     = (Inl (new_Error ''Invalid input: expected File or data URL string''), st)"
  by (simp add: resizeAndConvertToJpeg_def)

end
